theory Spec2Isabelle
  imports Complex_Main "HOL-Library.AList" "HOL-Library.Log_Nat"
begin

section \<open>Data model\<close>

text \<open>
  A theme label is a Python \<open>str\<close>. The program only compares and hashes labels, so a
  label is modelled by its UTF-8 bytes. \<open>Theme.__args__\<close> is the tuple of the 34 literals
  of the \<open>Literal[...]\<close> type, in source order (lines 12-54 of \<open>lib.py\<close>); the comment
  before each entry gives the usual English name and the code points of the literal.
\<close>

type_synonym Theme = string

definition Theme_args :: "Theme list" where
  "Theme_args = [
     \<comment> \<open>Analytical (U+5206 U+6790 U+601D U+8003)\<close>
     [CHR 0xE5, CHR 0x88, CHR 0x86, CHR 0xE6, CHR 0x9E, CHR 0x90, CHR 0xE6, CHR 0x80, CHR 0x9D, CHR 0xE8, CHR 0x80, CHR 0x83],
     \<comment> \<open>Context (U+539F U+70B9 U+601D U+8003)\<close>
     [CHR 0xE5, CHR 0x8E, CHR 0x9F, CHR 0xE7, CHR 0x82, CHR 0xB9, CHR 0xE6, CHR 0x80, CHR 0x9D, CHR 0xE8, CHR 0x80, CHR 0x83],
     \<comment> \<open>Futuristic (U+672A U+6765 U+5FD7 U+5411)\<close>
     [CHR 0xE6, CHR 0x9C, CHR 0xAA, CHR 0xE6, CHR 0x9D, CHR 0xA5, CHR 0xE5, CHR 0xBF, CHR 0x97, CHR 0xE5, CHR 0x90, CHR 0x91],
     \<comment> \<open>Ideation (U+7740 U+60F3)\<close>
     [CHR 0xE7, CHR 0x9D, CHR 0x80, CHR 0xE6, CHR 0x83, CHR 0xB3],
     \<comment> \<open>Input (U+53CE U+96C6 U+5FC3)\<close>
     [CHR 0xE5, CHR 0x8F, CHR 0x8E, CHR 0xE9, CHR 0x9B, CHR 0x86, CHR 0xE5, CHR 0xBF, CHR 0x83],
     \<comment> \<open>Intellection (U+5185 U+7701)\<close>
     [CHR 0xE5, CHR 0x86, CHR 0x85, CHR 0xE7, CHR 0x9C, CHR 0x81],
     \<comment> \<open>Learner (U+5B66 U+7FD2 U+6B32)\<close>
     [CHR 0xE5, CHR 0xAD, CHR 0xA6, CHR 0xE7, CHR 0xBF, CHR 0x92, CHR 0xE6, CHR 0xAC, CHR 0xB2],
     \<comment> \<open>Strategic (U+6226 U+7565 U+6027)\<close>
     [CHR 0xE6, CHR 0x88, CHR 0xA6, CHR 0xE7, CHR 0x95, CHR 0xA5, CHR 0xE6, CHR 0x80, CHR 0xA7],
     \<comment> \<open>Adaptability (U+9069 U+5FDC U+6027)\<close>
     [CHR 0xE9, CHR 0x81, CHR 0xA9, CHR 0xE5, CHR 0xBF, CHR 0x9C, CHR 0xE6, CHR 0x80, CHR 0xA7],
     \<comment> \<open>Connectedness (U+904B U+547D U+601D U+8003)\<close>
     [CHR 0xE9, CHR 0x81, CHR 0x8B, CHR 0xE5, CHR 0x91, CHR 0xBD, CHR 0xE6, CHR 0x80, CHR 0x9D, CHR 0xE8, CHR 0x80, CHR 0x83],
     \<comment> \<open>Developer (U+6210 U+9577 U+4FC3 U+9032)\<close>
     [CHR 0xE6, CHR 0x88, CHR 0x90, CHR 0xE9, CHR 0x95, CHR 0xB7, CHR 0xE4, CHR 0xBF, CHR 0x83, CHR 0xE9, CHR 0x80, CHR 0xB2],
     \<comment> \<open>Empathy (U+5171 U+611F U+6027)\<close>
     [CHR 0xE5, CHR 0x85, CHR 0xB1, CHR 0xE6, CHR 0x84, CHR 0x9F, CHR 0xE6, CHR 0x80, CHR 0xA7],
     \<comment> \<open>Harmony (U+8ABF U+548C U+6027)\<close>
     [CHR 0xE8, CHR 0xAA, CHR 0xBF, CHR 0xE5, CHR 0x92, CHR 0x8C, CHR 0xE6, CHR 0x80, CHR 0xA7],
     \<comment> \<open>Includer (U+5305 U+542B)\<close>
     [CHR 0xE5, CHR 0x8C, CHR 0x85, CHR 0xE5, CHR 0x90, CHR 0xAB],
     \<comment> \<open>Individualization (U+500B U+5225 U+5316)\<close>
     [CHR 0xE5, CHR 0x80, CHR 0x8B, CHR 0xE5, CHR 0x88, CHR 0xA5, CHR 0xE5, CHR 0x8C, CHR 0x96],
     \<comment> \<open>Positivity (U+30DD U+30B8 U+30C6 U+30A3 U+30D6)\<close>
     [CHR 0xE3, CHR 0x83, CHR 0x9D, CHR 0xE3, CHR 0x82, CHR 0xB8, CHR 0xE3, CHR 0x83, CHR 0x86, CHR 0xE3, CHR 0x82, CHR 0xA3, CHR 0xE3, CHR 0x83, CHR 0x96],
     \<comment> \<open>Relator (U+89AA U+5BC6 U+6027)\<close>
     [CHR 0xE8, CHR 0xA6, CHR 0xAA, CHR 0xE5, CHR 0xAF, CHR 0x86, CHR 0xE6, CHR 0x80, CHR 0xA7],
     \<comment> \<open>Activator (U+6D3B U+767A U+6027)\<close>
     [CHR 0xE6, CHR 0xB4, CHR 0xBB, CHR 0xE7, CHR 0x99, CHR 0xBA, CHR 0xE6, CHR 0x80, CHR 0xA7],
     \<comment> \<open>Command (U+6307 U+4EE4 U+6027)\<close>
     [CHR 0xE6, CHR 0x8C, CHR 0x87, CHR 0xE4, CHR 0xBB, CHR 0xA4, CHR 0xE6, CHR 0x80, CHR 0xA7],
     \<comment> \<open>Communication (U+30B3 U+30DF U+30E5 U+30CB U+30B1 U+30FC U+30B7 U+30E7 U+30F3)\<close>
     [CHR 0xE3, CHR 0x82, CHR 0xB3, CHR 0xE3, CHR 0x83, CHR 0x9F, CHR 0xE3, CHR 0x83, CHR 0xA5, CHR 0xE3, CHR 0x83, CHR 0x8B, CHR 0xE3, CHR 0x82, CHR 0xB1, CHR 0xE3, CHR 0x83, CHR 0xBC, CHR 0xE3, CHR 0x82, CHR 0xB7, CHR 0xE3, CHR 0x83, CHR 0xA7, CHR 0xE3, CHR 0x83, CHR 0xB3],
     \<comment> \<open>Competition (U+7AF6 U+4E89 U+6027)\<close>
     [CHR 0xE7, CHR 0xAB, CHR 0xB6, CHR 0xE4, CHR 0xBA, CHR 0x89, CHR 0xE6, CHR 0x80, CHR 0xA7],
     \<comment> \<open>Maximizer (U+6700 U+4E0A U+5FD7 U+5411)\<close>
     [CHR 0xE6, CHR 0x9C, CHR 0x80, CHR 0xE4, CHR 0xB8, CHR 0x8A, CHR 0xE5, CHR 0xBF, CHR 0x97, CHR 0xE5, CHR 0x90, CHR 0x91],
     \<comment> \<open>Self-Assurance (U+81EA U+5DF1 U+78BA U+4FE1)\<close>
     [CHR 0xE8, CHR 0x87, CHR 0xAA, CHR 0xE5, CHR 0xB7, CHR 0xB1, CHR 0xE7, CHR 0xA2, CHR 0xBA, CHR 0xE4, CHR 0xBF, CHR 0xA1],
     \<comment> \<open>Significance (U+81EA U+6211)\<close>
     [CHR 0xE8, CHR 0x87, CHR 0xAA, CHR 0xE6, CHR 0x88, CHR 0x91],
     \<comment> \<open>Woo (U+793E U+4EA4 U+6027)\<close>
     [CHR 0xE7, CHR 0xA4, CHR 0xBE, CHR 0xE4, CHR 0xBA, CHR 0xA4, CHR 0xE6, CHR 0x80, CHR 0xA7],
     \<comment> \<open>Achiever (U+9054 U+6210 U+6B32)\<close>
     [CHR 0xE9, CHR 0x81, CHR 0x94, CHR 0xE6, CHR 0x88, CHR 0x90, CHR 0xE6, CHR 0xAC, CHR 0xB2],
     \<comment> \<open>Arranger (U+30A2 U+30EC U+30F3 U+30B8)\<close>
     [CHR 0xE3, CHR 0x82, CHR 0xA2, CHR 0xE3, CHR 0x83, CHR 0xAC, CHR 0xE3, CHR 0x83, CHR 0xB3, CHR 0xE3, CHR 0x82, CHR 0xB8],
     \<comment> \<open>Belief (U+4FE1 U+5FF5)\<close>
     [CHR 0xE4, CHR 0xBF, CHR 0xA1, CHR 0xE5, CHR 0xBF, CHR 0xB5],
     \<comment> \<open>Consistency (U+516C U+5E73 U+6027)\<close>
     [CHR 0xE5, CHR 0x85, CHR 0xAC, CHR 0xE5, CHR 0xB9, CHR 0xB3, CHR 0xE6, CHR 0x80, CHR 0xA7],
     \<comment> \<open>Deliberative (U+614E U+91CD U+3055)\<close>
     [CHR 0xE6, CHR 0x85, CHR 0x8E, CHR 0xE9, CHR 0x87, CHR 0x8D, CHR 0xE3, CHR 0x81, CHR 0x95],
     \<comment> \<open>Discipline (U+898F U+5F8B U+6027)\<close>
     [CHR 0xE8, CHR 0xA6, CHR 0x8F, CHR 0xE5, CHR 0xBE, CHR 0x8B, CHR 0xE6, CHR 0x80, CHR 0xA7],
     \<comment> \<open>Focus (U+76EE U+6A19 U+5FD7 U+5411)\<close>
     [CHR 0xE7, CHR 0x9B, CHR 0xAE, CHR 0xE6, CHR 0xA8, CHR 0x99, CHR 0xE5, CHR 0xBF, CHR 0x97, CHR 0xE5, CHR 0x90, CHR 0x91],
     \<comment> \<open>Responsibility (U+8CAC U+4EFB U+611F)\<close>
     [CHR 0xE8, CHR 0xB2, CHR 0xAC, CHR 0xE4, CHR 0xBB, CHR 0xBB, CHR 0xE6, CHR 0x84, CHR 0x9F],
     \<comment> \<open>Restorative (U+56DE U+5FA9 U+5FD7 U+5411)\<close>
     [CHR 0xE5, CHR 0x9B, CHR 0x9E, CHR 0xE5, CHR 0xBE, CHR 0xA9, CHR 0xE5, CHR 0xBF, CHR 0x97, CHR 0xE5, CHR 0x90, CHR 0x91]]"

text \<open>
  \<open>ThemesTable = dict[str, list[Theme]]\<close>. A Python dict iterates in insertion order and
  has unique keys: it is an association list, and \<open>wf_table\<close> says the keys are unique.
  The annotation \<open>list[Theme]\<close> is not enforced when the program runs, so a profile is a
  list of arbitrary strings.
\<close>

type_synonym ThemesTable = "(string \<times> Theme list) list"

definition wf_table :: "ThemesTable \<Rightarrow> bool" where
  "wf_table table = distinct (map fst table)"

definition items :: "('k \<times> 'v) list \<Rightarrow> ('k \<times> 'v) list" where
  "items d = d"

definition values_of :: "('k \<times> 'v) list \<Rightarrow> 'v list" where
  "values_of d = map snd d"

definition keys_of :: "('k \<times> 'v) list \<Rightarrow> 'k list" where
  "keys_of d = map fst d"

datatype py_error = TypeError | ValueError | ZeroDivisionError

text \<open>
  A generator is the sequence of what it does when it is consumed: it yields a value and
  goes on, it raises, or it is exhausted.
\<close>

datatype 'a gen = Stop | Raise py_error | Yield 'a "'a gen"

fun yielded :: "'a gen \<Rightarrow> 'a list" where
  "yielded Stop = []"
| "yielded (Raise e) = []"
| "yielded (Yield x g) = x # yielded g"

fun raised :: "'a gen \<Rightarrow> py_error option" where
  "raised Stop = None"
| "raised (Raise e) = Some e"
| "raised (Yield x g) = raised g"

subsection \<open>Slices\<close>

text \<open>
  \<open>xs[:k]\<close> and \<open>xs[k:]\<close> for a Python int \<open>k\<close>: a negative bound counts from the end
  and every bound is clipped to the list.
\<close>

definition slice_to :: "'a list \<Rightarrow> int \<Rightarrow> 'a list" where
  "slice_to xs k = (if 0 \<le> k then take (nat k) xs else take (length xs - nat (- k)) xs)"

definition slice_from :: "'a list \<Rightarrow> int \<Rightarrow> 'a list" where
  "slice_from xs k = (if 0 \<le> k then drop (nat k) xs else drop (length xs - nat (- k)) xs)"

section \<open>Aggregator\<close>

definition dict_get :: "('k \<times> 'v) list \<Rightarrow> 'k \<Rightarrow> 'v \<Rightarrow> 'v" where
  "dict_get d k dflt = (case map_of d k of None \<Rightarrow> dflt | Some v \<Rightarrow> v)"

text \<open>
  \<open>d[k] = v\<close> is \<open>AList.update k v d\<close>: an existing key keeps its place, a new one goes
  to the end. \<open>dict_of\<close> builds a dict from key-value pairs (a dict comprehension) and
  \<open>dict_merge a b\<close> is \<open>{ **a, **b }\<close>.
\<close>

definition dict_merge :: "('k \<times> 'v) list \<Rightarrow> ('k \<times> 'v) list \<Rightarrow> ('k \<times> 'v) list" where
  "dict_merge a b = fold (\<lambda>(k, v) d. AList.update k v d) b a"

definition dict_of :: "('k \<times> 'v) list \<Rightarrow> ('k \<times> 'v) list" where
  "dict_of kvs = dict_merge [] kvs"

text \<open>\<open>Counter(iterable)\<close>: the number of occurrences of each element.\<close>

definition Counter :: "'a list \<Rightarrow> ('a \<times> int) list" where
  "Counter xs = fold (\<lambda>x c. AList.update x (dict_get c x 0 + 1) c) xs []"

definition histogram :: "ThemesTable \<Rightarrow> int \<Rightarrow> (Theme \<times> int) list \<times> (Theme \<times> int) list" where
  "histogram table rate =
     (let empty = dict_of (map (\<lambda>theme. (theme, 0)) Theme_args);
          s_hist = Counter (concat (map (\<lambda>xs. slice_to xs rate) (values_of table)));
          w_hist = Counter (concat (map (\<lambda>xs. slice_from xs (- rate)) (values_of table)))
      in (dict_merge empty s_hist, dict_merge empty w_hist))"

section \<open>Dissimilarity engine\<close>

subsection \<open>Floats\<close>

text \<open>
  A Python float is an IEEE 754 binary64 number; a finite one is the rational it denotes.
  Every arithmetic operation returns the exact result rounded to the nearest binary64
  number, ties to even: \<open>binary64\<close>. Its unit in the last place is \<open>2 ^ (e - 52)\<close> where
  \<open>e\<close> is the binary exponent of the argument, at least \<open>-1022\<close> (below, the numbers are
  subnormal). Overflow to infinity is left out: the program rounds only numbers between
  0 and 2.
\<close>

definition pow2 :: "int \<Rightarrow> rat" where
  "pow2 e = (if 0 \<le> e then 2 ^ nat e else 1 / 2 ^ nat (- e))"

text \<open>The binary exponent \<open>\<lfloor>log\<^sub>2 q\<rfloor>\<close> of a positive rational.\<close>

definition ilog2 :: "rat \<Rightarrow> int" where
  "ilog2 q =
     (let (a, b) = quotient_of q;
          d = bitlen a - bitlen b
      in if pow2 d \<le> q then d else d - 1)"

text \<open>Rounding to the nearest integer, ties to the even one.\<close>

definition rne :: "rat \<Rightarrow> int" where
  "rne x =
     (let f = \<lfloor>x\<rfloor>; r = x - of_int f
      in if r < 1 / 2 then f else if 1 / 2 < r then f + 1 else if even f then f else f + 1)"

definition binary64 :: "rat \<Rightarrow> rat" where
  "binary64 q =
     (if q = 0 then 0
      else let e = max (ilog2 \<bar>q\<bar>) (- 1022); ulp = pow2 (e - 52)
           in of_int (rne (q / ulp)) * ulp)"

text \<open>
  \<open>a / b\<close> on ints is the correctly rounded quotient and raises \<open>ZeroDivisionError\<close> when
  \<open>b\<close> is 0; in \<open>x + y\<close>, \<open>x / 2\<close> and \<open>1 - x\<close> an int operand is converted to the float of
  the same value.
\<close>

definition int_truediv :: "int \<Rightarrow> int \<Rightarrow> py_error + rat" where
  "int_truediv a b = (if b = 0 then Inl ZeroDivisionError else Inr (binary64 (of_int a / of_int b)))"

definition float_add :: "rat \<Rightarrow> rat \<Rightarrow> rat" where
  "float_add x y = binary64 (x + y)"

definition float_sub :: "rat \<Rightarrow> rat \<Rightarrow> rat" where
  "float_sub x y = binary64 (x - y)"

definition float_div :: "rat \<Rightarrow> rat \<Rightarrow> py_error + rat" where
  "float_div x y = (if y = 0 then Inl ZeroDivisionError else Inr (binary64 (x / y)))"

subsection \<open>Distance\<close>

text \<open>
  \<open>jaccard\<close>, \<open>distance\<close> and, below, \<open>skipped_union\<close> are the source's \<open>_jaccard\<close>,
  \<open>_distance\<close> and \<open>_skipped_union\<close>. A Python set is the finite set of its elements
  and \<open>len\<close> is \<open>card\<close>.
\<close>

definition jaccard :: "'a set \<Rightarrow> 'a set \<Rightarrow> py_error + rat" where
  "jaccard Xi Xj = int_truediv (int (card (Xi \<inter> Xj))) (int (card (Xi \<union> Xj)))"

definition distance :: "Theme list \<Rightarrow> Theme list \<Rightarrow> int \<Rightarrow> py_error + rat" where
  "distance Xi Xj rate =
     (case jaccard (set (slice_to Xi rate)) (set (slice_to Xj rate)) of
        Inl e \<Rightarrow> Inl e
      | Inr s_jaccard \<Rightarrow>
          (case jaccard (set (slice_from Xi (- rate))) (set (slice_from Xj (- rate))) of
             Inl e \<Rightarrow> Inl e
           | Inr w_jaccard \<Rightarrow>
               (case float_div (float_add s_jaccard w_jaccard) 2 of
                  Inl e \<Rightarrow> Inl e
                | Inr h \<Rightarrow> Inr (float_sub 1 h))))"

text \<open>
  \<open>itertools.combinations(iterable, r)\<close>: the \<open>r\<close>-element subsequences, in lexicographic
  order of positions.
\<close>

fun combinations :: "'a list \<Rightarrow> nat \<Rightarrow> 'a list list" where
  "combinations xs 0 = [[]]"
| "combinations [] (Suc r) = []"
| "combinations (x # xs) (Suc r) = map (\<lambda>c. x # c) (combinations xs r) @ combinations xs (Suc r)"

text \<open>
  The loop of \<open>distance_gen\<close>; unpacking a tuple that is not a pair would raise
  \<open>ValueError\<close>.
\<close>

fun distance_loop :: "(string \<times> Theme list) list list \<Rightarrow> int \<Rightarrow> (string \<times> string \<times> rat) gen" where
  "distance_loop [] rate = Stop"
| "distance_loop ([(name_i, Xi), (name_j, Xj)] # rest) rate =
     (case distance Xi Xj rate of
        Inl e \<Rightarrow> Raise e
      | Inr d \<Rightarrow> Yield (name_i, name_j, d) (distance_loop rest rate))"
| "distance_loop (c # rest) rate = Raise ValueError"

definition distance_gen :: "ThemesTable \<Rightarrow> int \<Rightarrow> (string \<times> string \<times> rat) gen" where
  "distance_gen table rate = distance_loop (combinations (items table) 2) rate"

section \<open>Uniqueness engine\<close>

text \<open>\<open>functools.reduce\<close> without an initial value raises \<open>TypeError\<close> on an empty iterable.\<close>

definition reduce :: "('a \<Rightarrow> 'a \<Rightarrow> 'a) \<Rightarrow> 'a list \<Rightarrow> py_error + 'a" where
  "reduce f xs = (case xs of [] \<Rightarrow> Inl TypeError | x # ys \<Rightarrow> Inr (foldl f x ys))"

definition skipped_union :: "string \<Rightarrow> ThemesTable \<Rightarrow> int \<Rightarrow> py_error + Theme set" where
  "skipped_union name_i table rate =
     (let skipped = map (\<lambda>(name_j, Xj). set (slice_to Xj rate))
                        (filter (\<lambda>(name_j, Xj). name_j \<noteq> name_i) (items table))
      in reduce (\<lambda>x y. x \<union> y) skipped)"

fun specific_loop :: "(string \<times> Theme list) list \<Rightarrow> ThemesTable \<Rightarrow> int \<Rightarrow> (string \<times> Theme set) gen" where
  "specific_loop [] table rate = Stop"
| "specific_loop ((name_i, Xi) # rest) table rate =
     (case skipped_union name_i table rate of
        Inl e \<Rightarrow> Raise e
      | Inr u \<Rightarrow> Yield (name_i, set (slice_to Xi rate) - u) (specific_loop rest table rate))"

definition specific_gen :: "ThemesTable \<Rightarrow> int \<Rightarrow> (string \<times> Theme set) gen" where
  "specific_gen table rate = specific_loop (items table) table rate"

section \<open>The specification's notions\<close>

text \<open>
  The top-K set of a profile in the specification's words: the set of its first
  \<open>min(K, len(profile))\<close> traits.
\<close>

definition top_K :: "int \<Rightarrow> Theme list \<Rightarrow> Theme set" where
  "top_K K profile = set (take (min (nat K) (length profile)) profile)"

text \<open>\<open>specific(i) = S\<^sub>i - \<Union>\<^bsub>j \<noteq> i\<^esub> S\<^sub>j\<close>, the union over all other members.\<close>

definition specific_spec :: "ThemesTable \<Rightarrow> int \<Rightarrow> string \<Rightarrow> Theme list \<Rightarrow> Theme set" where
  "specific_spec table K name_i Xi =
     top_K K Xi - \<Union> (set (map (\<lambda>(name_j, Xj). top_K K Xj) (filter (\<lambda>(name_j, Xj). name_j \<noteq> name_i) table)))"

text \<open>The pairs of a list with the first component before the second, in order.\<close>

fun pairs :: "'a list \<Rightarrow> ('a \<times> 'a) list" where
  "pairs [] = []"
| "pairs (x # xs) = map (Pair x) xs @ pairs xs"

section \<open>Theorems\<close>

lemma distinct_Theme_args: "distinct Theme_args"
  unfolding Theme_args_def by simp

lemma length_Theme_args: "length Theme_args = 34"
  unfolding Theme_args_def by simp

subsection \<open>Rounding to binary64\<close>

lemma pow2_powi: "pow2 e = 2 powi e"
  by (simp add: pow2_def power_int_def power_one_over inverse_eq_divide)

lemma pow2_pos: "0 < pow2 e"
  by (simp add: pow2_powi)

lemma pow2_mono: "e \<le> e' \<Longrightarrow> pow2 e \<le> pow2 e'"
  by (simp add: pow2_powi power_int_increasing)

lemma pow2_strict_mono: "e < e' \<Longrightarrow> pow2 e < pow2 e'"
  by (simp add: pow2_powi power_int_strict_increasing)

lemma pow2_add: "pow2 (a + b) = pow2 a * pow2 b"
  by (simp add: pow2_powi power_int_add)

lemma pow2_diff: "pow2 (a - b) = pow2 a / pow2 b"
  by (simp add: pow2_powi power_int_diff)

lemma pow2_nat: "pow2 (int n) = 2 ^ n"
  by (simp add: pow2_powi)

lemma bitlen_rat_bounds:
  assumes "0 < a"
  shows "pow2 (bitlen a - 1) \<le> rat_of_int a" and "rat_of_int a < pow2 (bitlen a)"
  unfolding bitlen_def
proof -
  let ?l = "floorlog 2 (nat a)"
  have pos: "0 < nat a" using assms by simp
  have b: "2 ^ (?l - 1) \<le> nat a \<and> nat a < 2 ^ ?l"
    by (rule floorlog_bounds) (use pos in simp_all)
  have l: "0 < ?l"
    using b pos by (cases "?l") auto
  have "rat_of_nat (2 ^ (?l - 1)) \<le> rat_of_nat (nat a)"
    using b by (simp only: of_nat_le_iff)
  moreover have "int (?l - 1) = int ?l - 1" using l by simp
  ultimately show "pow2 (int ?l - 1) \<le> rat_of_int a"
    using assms pow2_nat [of "?l - 1"] by simp
  have "rat_of_nat (nat a) < rat_of_nat (2 ^ ?l)"
    using b by (simp only: of_nat_less_iff)
  then show "rat_of_int a < pow2 (int ?l)"
    using assms by (simp add: pow2_nat)
qed

lemma ilog2_bounds:
  assumes "0 < q"
  shows "pow2 (ilog2 q) \<le> q" and "q < pow2 (ilog2 q + 1)"
proof -
  obtain a b where ab: "quotient_of q = (a, b)" by (cases "quotient_of q")
  have b: "0 < b" using ab by (rule quotient_of_denom_pos)
  have q: "q = rat_of_int a / rat_of_int b" using ab by (rule quotient_of_div)
  have a: "0 < a" using assms b q by (simp add: zero_less_divide_iff)
  let ?la = "bitlen a" and ?lb = "bitlen b"
  let ?d = "?la - ?lb"
  note A = bitlen_rat_bounds [OF a] and B = bitlen_rat_bounds [OF b]
  have rb: "0 < rat_of_int b" using b by simp
  have "q < pow2 ?la / pow2 (?lb - 1)"
    unfolding q using A(2) B(1) a pow2_pos [of "?lb - 1"]
    by (intro frac_less) simp_all
  then have up: "q < pow2 (?d + 1)"
    using pow2_diff [of ?la "?lb - 1"] by (simp add: algebra_simps)
  have "pow2 (?la - 1) / pow2 ?lb < q"
    unfolding q using A(1) B(2) rb pow2_pos [of "?la - 1"]
    by (intro frac_less2) simp_all
  then have lo: "pow2 (?d - 1) < q"
    using pow2_diff [of "?la - 1" ?lb] by (simp add: algebra_simps)
  have il: "ilog2 q = (if pow2 ?d \<le> q then ?d else ?d - 1)"
    by (simp add: ilog2_def ab Let_def)
  show "pow2 (ilog2 q) \<le> q"
    using lo by (simp add: il)
  show "q < pow2 (ilog2 q + 1)"
    using up by (simp add: il)
qed

lemma ilog2_unique:
  assumes "pow2 e \<le> q" and "q < pow2 (e + 1)"
  shows "ilog2 q = e"
proof -
  have q: "0 < q" using assms(1) pow2_pos [of e] by simp
  note B = ilog2_bounds [OF q]
  have "pow2 e < pow2 (ilog2 q + 1)" using assms(1) B(2) by simp
  then have "e < ilog2 q + 1"
    using pow2_mono [of "ilog2 q + 1" e] by (cases "e < ilog2 q + 1") auto
  moreover have "pow2 (ilog2 q) < pow2 (e + 1)" using assms(2) B(1) by simp
  then have "ilog2 q < e + 1"
    using pow2_mono [of "e + 1" "ilog2 q"] by (cases "ilog2 q < e + 1") auto
  ultimately show ?thesis by simp
qed

lemma ilog2_mono:
  assumes "0 < x" and "x \<le> y"
  shows "ilog2 x \<le> ilog2 y"
proof -
  have y: "0 < y" using assms by simp
  have "pow2 (ilog2 x) < pow2 (ilog2 y + 1)"
    using ilog2_bounds(1) [OF assms(1)] ilog2_bounds(2) [OF y] assms(2) by simp
  then have "ilog2 x < ilog2 y + 1"
    using pow2_mono [of "ilog2 y + 1" "ilog2 x"] by (cases "ilog2 x < ilog2 y + 1") auto
  then show ?thesis by simp
qed

lemma rne_of_int: "rne (of_int n) = n"
  by (simp add: rne_def)

lemma rne_mono:
  assumes "x \<le> y"
  shows "rne x \<le> rne y"
proof (cases "\<lfloor>x\<rfloor> = \<lfloor>y\<rfloor>")
  case True
  then show ?thesis using assms by (auto simp: rne_def Let_def)
next
  case False
  then have "\<lfloor>x\<rfloor> + 1 \<le> \<lfloor>y\<rfloor>"
    using floor_mono [OF assms] by simp
  moreover have "rne x \<le> \<lfloor>x\<rfloor> + 1" by (simp add: rne_def Let_def)
  moreover have "\<lfloor>y\<rfloor> \<le> rne y" by (simp add: rne_def Let_def)
  ultimately show ?thesis by linarith
qed

lemma rne_nonneg: "0 \<le> x \<Longrightarrow> 0 \<le> rne x"
  using rne_mono [of 0 x] rne_of_int [of 0] by simp

lemma binary64_zero: "binary64 0 = 0"
  by (simp add: binary64_def)

lemma binary64_eq:
  "q \<noteq> 0 \<Longrightarrow> binary64 q
     = of_int (rne (q / pow2 (max (ilog2 \<bar>q\<bar>) (- 1022) - 52))) * pow2 (max (ilog2 \<bar>q\<bar>) (- 1022) - 52)"
  by (simp add: binary64_def Let_def)

lemma pow2_split_up: "pow2 (e + 1) = 2 ^ 53 * pow2 (e - 52)"
  using pow2_add [of 53 "e - 52"] by (simp add: pow2_def [of 53] add.commute)

lemma pow2_split: "pow2 e = 2 ^ 52 * pow2 (e - 52)"
  using pow2_add [of 52 "e - 52"] by (simp add: pow2_def [of 52])

lemma binary64_nonneg:
  assumes "0 \<le> q"
  shows "0 \<le> binary64 q"
proof (cases "q = 0")
  case True
  then show ?thesis by (simp add: binary64_zero)
next
  case False
  have "0 \<le> q / pow2 (max (ilog2 \<bar>q\<bar>) (- 1022) - 52)"
    using assms pow2_pos by (simp add: less_imp_le)
  then show ?thesis
    using False pow2_pos [of "max (ilog2 \<bar>q\<bar>) (- 1022) - 52"]
    by (simp add: binary64_eq rne_nonneg less_imp_le)
qed

lemma binary64_upper:
  assumes "0 < q"
  shows "binary64 q \<le> pow2 (max (ilog2 q) (- 1022) + 1)"
proof -
  let ?e = "max (ilog2 q) (- 1022)"
  let ?u = "pow2 (?e - 52)"
  have u: "0 < ?u" by (rule pow2_pos)
  have "q < pow2 (ilog2 q + 1)" by (rule ilog2_bounds(2) [OF assms])
  also have "\<dots> \<le> pow2 (?e + 1)" by (rule pow2_mono) simp
  finally have "q / ?u \<le> 2 ^ 53"
    using u by (simp add: pow2_split_up [of ?e] pos_divide_le_eq)
  then have "q / ?u \<le> of_int (2 ^ 53)" by simp
  then have "rne (q / ?u) \<le> 2 ^ 53"
    using rne_mono rne_of_int by metis
  then have "rat_of_int (rne (q / ?u)) \<le> 2 ^ 53"
    by (metis of_int_le_iff of_int_numeral of_int_power)
  then have "rat_of_int (rne (q / ?u)) * ?u \<le> 2 ^ 53 * ?u"
    using u by (simp only: mult_le_cancel_right_pos)
  then show ?thesis
    using assms by (simp add: binary64_eq pow2_split_up [of ?e])
qed

lemma binary64_lower:
  assumes "0 < q" and "- 1022 \<le> ilog2 q"
  shows "pow2 (ilog2 q) \<le> binary64 q"
proof -
  let ?e = "ilog2 q"
  let ?u = "pow2 (?e - 52)"
  have e: "max ?e (- 1022) = ?e" using assms(2) by simp
  have u: "0 < ?u" by (rule pow2_pos)
  have "pow2 ?e \<le> q" by (rule ilog2_bounds(1) [OF assms(1)])
  then have "2 ^ 52 \<le> q / ?u"
    using u by (simp add: pow2_split [of ?e] pos_le_divide_eq)
  then have "of_int (2 ^ 52) \<le> q / ?u" by simp
  then have "2 ^ 52 \<le> rne (q / ?u)"
    using rne_mono rne_of_int by metis
  then have "2 ^ 52 \<le> rat_of_int (rne (q / ?u))"
    by (metis of_int_le_iff of_int_numeral of_int_power)
  then have "2 ^ 52 * ?u \<le> rat_of_int (rne (q / ?u)) * ?u"
    using u by (simp only: mult_le_cancel_right_pos)
  then show ?thesis
    using assms(1) e by (simp add: binary64_eq pow2_split [of ?e])
qed

lemma binary64_mono:
  assumes "0 \<le> x" and "x \<le> y"
  shows "binary64 x \<le> binary64 y"
proof (cases "x = 0")
  case True
  then show ?thesis using assms binary64_nonneg [of y] by (simp add: binary64_zero)
next
  case False
  then have x: "0 < x" using assms(1) by simp
  then have y: "0 < y" using assms(2) by simp
  let ?ex = "max (ilog2 x) (- 1022)" and ?ey = "max (ilog2 y) (- 1022)"
  have le: "?ex \<le> ?ey" using ilog2_mono [OF x assms(2)] by simp
  show ?thesis
  proof (cases "?ex = ?ey")
    case True
    have u: "0 < pow2 (?ey - 52)" by (rule pow2_pos)
    have "x / pow2 (?ey - 52) \<le> y / pow2 (?ey - 52)"
      using assms(2) u by (simp add: divide_right_mono less_imp_le)
    then have "rat_of_int (rne (x / pow2 (?ey - 52))) \<le> rat_of_int (rne (y / pow2 (?ey - 52)))"
      by (simp only: of_int_le_iff rne_mono)
    then have "rat_of_int (rne (x / pow2 (?ey - 52))) * pow2 (?ey - 52)
        \<le> rat_of_int (rne (y / pow2 (?ey - 52))) * pow2 (?ey - 52)"
      using u by (simp only: mult_le_cancel_right_pos)
    then show ?thesis
      using x y True binary64_eq [of x] binary64_eq [of y] by simp
  next
    case False
    with le have lt: "?ex < ?ey" by (rule le_neq_trans)
    then have ey: "?ey = ilog2 y" and big: "- 1022 \<le> ilog2 y"
      by (auto simp: max_def split: if_splits)
    have "binary64 x \<le> pow2 (?ex + 1)" by (rule binary64_upper [OF x])
    also have "\<dots> \<le> pow2 (ilog2 y)"
    proof (rule pow2_mono)
      show "?ex + 1 \<le> ilog2 y" using lt unfolding ey by linarith
    qed
    also have "\<dots> \<le> binary64 y" by (rule binary64_lower [OF y big])
    finally show ?thesis .
  qed
qed

lemma binary64_pow2:
  assumes "- 1022 \<le> e"
  shows "binary64 (pow2 e) = pow2 e"
proof -
  have p: "0 < pow2 e" by (rule pow2_pos)
  have "pow2 e < pow2 (e + 1)" by (rule pow2_strict_mono) simp
  then have il: "ilog2 (pow2 e) = e" by (intro ilog2_unique) simp_all
  have u: "pow2 (e - 52) \<noteq> 0" using pow2_pos [of "e - 52"] by simp
  have "pow2 e / pow2 (e - 52) = of_int (2 ^ 52)"
    using u by (simp add: pow2_split [of e])
  then have "rne (pow2 e / pow2 (e - 52)) = 2 ^ 52"
    by (simp only: rne_of_int)
  then show ?thesis
    using p assms il binary64_eq [of "pow2 e"] by (simp add: pow2_split [of e])
qed

lemma binary64_one: "binary64 1 = 1"
  using binary64_pow2 [of 0] by (simp add: pow2_def)

lemma binary64_two: "binary64 2 = 2"
  using binary64_pow2 [of 1] by (simp add: pow2_def)

subsection \<open>Aggregator\<close>

lemma update_append: "k \<notin> fst ` set al \<Longrightarrow> AList.update k v al = al @ [(k, v)]"
  by (induction al) auto

lemma dict_merge_Nil [simp]: "dict_merge a [] = a"
  by (simp add: dict_merge_def)

lemma dict_merge_Cons [simp]: "dict_merge a ((k, v) # b) = dict_merge (AList.update k v a) b"
  by (simp add: dict_merge_def)

lemma dict_merge_fresh:
  "distinct ks \<Longrightarrow> set ks \<inter> fst ` set a = {} \<Longrightarrow>
   dict_merge a (map (\<lambda>k. (k, f k)) ks) = a @ map (\<lambda>k. (k, f k)) ks"
proof (induction ks arbitrary: a)
  case Nil
  then show ?case by simp
next
  case (Cons k ks)
  have "set ks \<inter> fst ` set (a @ [(k, f k)]) = {}"
    using Cons.prems by auto
  with Cons show ?case by (simp add: update_append)
qed

lemma dict_of_fresh: "distinct ks \<Longrightarrow> dict_of (map (\<lambda>k. (k, f k)) ks) = map (\<lambda>k. (k, f k)) ks"
  using dict_merge_fresh [of ks "[]" f] by (simp add: dict_of_def)

lemma keys_dict_merge: "fst ` set (dict_merge a b) = fst ` set a \<union> fst ` set b"
proof (induction b arbitrary: a)
  case Nil
  then show ?case by simp
next
  case (Cons p b)
  obtain k v where p: "p = (k, v)" by (cases p)
  show ?case unfolding p by (simp add: Cons.IH dom_update)
qed

lemma distinct_dict_merge: "distinct (map fst a) \<Longrightarrow> distinct (map fst (dict_merge a b))"
  by (induction b arbitrary: a) (auto simp: distinct_update)

lemma keys_dict_merge_same:
  "fst ` set b \<subseteq> fst ` set a \<Longrightarrow> map fst (dict_merge a b) = map fst a"
proof (induction b arbitrary: a)
  case Nil
  then show ?case by simp
next
  case (Cons p b)
  obtain k v where p: "p = (k, v)" by (cases p)
  have k: "k \<in> fst ` set a" using Cons.prems p by auto
  then have keys: "map fst (AList.update k v a) = map fst a"
    by (simp add: update_keys)
  have "fst ` set b \<subseteq> fst ` set (AList.update k v a)"
    using Cons.prems by (auto simp: dom_update)
  from Cons.IH [OF this] keys show ?case by (simp add: p)
qed

lemma map_of_dict_merge:
  "distinct (map fst b) \<Longrightarrow>
   map_of (dict_merge a b) k = (case map_of b k of None \<Rightarrow> map_of a k | Some v \<Rightarrow> Some v)"
proof (induction b arbitrary: a)
  case Nil
  then show ?case by simp
next
  case (Cons p b)
  obtain k' v' where p: "p = (k', v')" by (cases p)
  have "map_of b k' = None"
    using Cons.prems p by (simp add: map_of_eq_None_iff)
  with Cons show ?case by (auto simp: p update_conv' split: option.splits)
qed

lemma Counter_fold_map_of:
  "map_of (fold (\<lambda>x c. AList.update x (dict_get c x 0 + 1) c) xs c) k =
     (if k \<in> set xs \<or> k \<in> fst ` set c then Some (dict_get c k 0 + int (count_list xs k)) else None)"
proof (induction xs arbitrary: c)
  case Nil
  then show ?case
    by (auto simp: dict_get_def map_of_eq_None_iff split: option.splits)
next
  case (Cons x xs)
  show ?case
    by (simp add: Cons.IH dom_update) (auto simp: dict_get_def update_conv')
qed

lemma Counter_fold_distinct:
  "distinct (map fst c) \<Longrightarrow>
   distinct (map fst (fold (\<lambda>x c. AList.update x (dict_get c x 0 + 1) c) xs c))"
  by (induction xs arbitrary: c) (auto simp: distinct_update)

lemma map_of_Counter:
  "map_of (Counter xs) k = (if k \<in> set xs then Some (int (count_list xs k)) else None)"
  using Counter_fold_map_of [of xs "[]" k] by (simp add: Counter_def dict_get_def)

lemma distinct_Counter: "distinct (map fst (Counter xs))"
  by (simp add: Counter_def Counter_fold_distinct)

lemma keys_Counter: "fst ` set (Counter xs) = set xs"
proof -
  have "k \<in> fst ` set (Counter xs) \<longleftrightarrow> k \<in> set xs" for k
    using map_of_Counter [of xs k] map_of_eq_None_iff [of "Counter xs" k] by (auto split: if_splits)
  then show ?thesis by blast
qed

lemma sum_values_distinct:
  assumes "distinct (map fst d)"
  shows "sum_list (map snd d) = (\<Sum>k\<in>fst ` set d. dict_get d k (0::int))"
proof -
  have eq: "map snd d = map (\<lambda>k. dict_get d k 0) (map fst d)"
    using assms by (auto simp: dict_get_def)
  have "sum_list (map snd d) = sum_list (map (\<lambda>k. dict_get d k 0) (map fst d))"
    by (rule arg_cong [OF eq])
  also have "\<dots> = (\<Sum>k\<in>set (map fst d). dict_get d k 0)"
    using assms by (rule sum_list_distinct_conv_sum_set)
  finally show ?thesis by simp
qed

lemma empty_eq:
  "dict_of (map (\<lambda>theme. (theme, 0::int)) Theme_args) = map (\<lambda>theme. (theme, 0)) Theme_args"
  by (rule dict_of_fresh) (rule distinct_Theme_args)

lemma histogram_eq:
  "histogram table rate =
     (dict_merge (map (\<lambda>theme. (theme, 0)) Theme_args)
        (Counter (concat (map (\<lambda>xs. slice_to xs rate) (values_of table)))),
      dict_merge (map (\<lambda>theme. (theme, 0)) Theme_args)
        (Counter (concat (map (\<lambda>xs. slice_from xs (- rate)) (values_of table)))))"
  by (simp add: histogram_def empty_eq Let_def)

lemma keys_hist:
  "set (keys_of (dict_merge (map (\<lambda>theme. (theme, 0)) Theme_args) (Counter ys))) = set Theme_args \<union> set ys"
  by (simp add: keys_of_def keys_dict_merge keys_Counter image_comp o_def)

lemma keys_hist_same:
  "set ys \<subseteq> set Theme_args \<Longrightarrow>
   keys_of (dict_merge (map (\<lambda>theme. (theme, 0)) Theme_args) (Counter ys)) = Theme_args"
  unfolding keys_of_def
  by (subst keys_dict_merge_same) (simp_all add: keys_Counter image_comp o_def)

lemma distinct_hist:
  "distinct (map fst (dict_merge (map (\<lambda>theme. (theme, 0)) Theme_args) (Counter ys)))"
  by (rule distinct_dict_merge) (simp add: o_def distinct_Theme_args)

lemma get_hist:
  "dict_get (dict_merge (map (\<lambda>theme. (theme, 0)) Theme_args) (Counter ys)) k 0 = int (count_list ys k)"
  by (auto simp: dict_get_def map_of_dict_merge distinct_Counter map_of_Counter
      map_of_map_restrict restrict_map_def count_list_0_iff o_def split: option.splits)

lemma sum_hist:
  "sum_list (values_of (dict_merge (map (\<lambda>theme. (theme, 0)) Theme_args) (Counter ys))) = int (length ys)"
proof -
  have "sum_list (values_of (dict_merge (map (\<lambda>theme. (theme, 0)) Theme_args) (Counter ys)))
      = (\<Sum>k\<in>set Theme_args \<union> set ys. int (count_list ys k))"
    using sum_values_distinct [OF distinct_hist, of ys] keys_hist [of ys]
    by (simp add: values_of_def keys_of_def get_hist)
  also have "\<dots> = int (\<Sum>k\<in>set Theme_args \<union> set ys. count_list ys k)"
    by simp
  also have "(\<Sum>k\<in>set Theme_args \<union> set ys. count_list ys k) = length ys"
    by (rule sum_count_set) auto
  finally show ?thesis .
qed

lemma length_slice_to: "0 \<le> k \<Longrightarrow> int (length (slice_to xs k)) = min k (int (length xs))"
  by (simp add: slice_to_def)

lemma length_slice_from: "1 \<le> k \<Longrightarrow> int (length (slice_from xs (- k))) = min k (int (length xs))"
  by (simp add: slice_from_def)

lemma slice_from_zero: "slice_from xs 0 = xs"
  by (simp add: slice_from_def)

lemma slice_to_zero: "slice_to xs 0 = []"
  by (simp add: slice_to_def)

lemma set_slice_to_subset: "set (slice_to xs k) \<subseteq> set xs"
  by (simp add: slice_to_def set_take_subset)

lemma set_slice_from_subset: "set (slice_from xs k) \<subseteq> set xs"
  by (simp add: slice_from_def set_drop_subset)

lemma length_concat_slices:
  "(\<And>xs. int (length (f xs)) = min k (int (length xs))) \<Longrightarrow>
   int (length (concat (map f xss))) = (\<Sum>xs\<leftarrow>xss. min k (int (length xs)))"
  by (induction xss) simp_all

text \<open>
  C2. The claim says that the key sets of both histograms are the 34-label vocabulary for
  every table. That holds for the tables of the declared type: when every profile holds
  only labels of the vocabulary, the keys of both mappings are the labels of
  \<open>Theme.__args__\<close>, in that order, 34 distinct labels, whatever the rate. A label
  outside the vocabulary is not rejected and becomes a further key: the profile
  \<open>["Analytical"]\<close> gives 35 keys.
\<close>

theorem histogram_keys_vocabulary:
  assumes "\<forall>profile \<in> set (values_of table). set profile \<subseteq> set Theme_args"
  shows "keys_of (fst (histogram table rate)) = Theme_args \<and>
         keys_of (snd (histogram table rate)) = Theme_args \<and>
         distinct Theme_args \<and> length Theme_args = 34"
proof -
  have "set (concat (map (\<lambda>xs. slice_to xs rate) (values_of table))) \<subseteq> set Theme_args"
    using assms set_slice_to_subset by fastforce
  moreover have "set (concat (map (\<lambda>xs. slice_from xs (- rate)) (values_of table))) \<subseteq> set Theme_args"
    using assms set_slice_from_subset by fastforce
  ultimately show ?thesis
    by (simp add: histogram_eq keys_hist_same distinct_Theme_args length_Theme_args)
qed

theorem histogram_keys_vocabulary_witness:
  "values_of [(''A'', Theme_args), (''B'', rev Theme_args)] = [Theme_args, rev Theme_args] \<and>
   set Theme_args \<subseteq> set Theme_args \<and> set (rev Theme_args) \<subseteq> set Theme_args \<and>
   keys_of (fst (histogram [(''A'', Theme_args), (''B'', rev Theme_args)] 5)) = Theme_args \<and>
   keys_of (snd (histogram [(''A'', Theme_args), (''B'', rev Theme_args)] 5)) = Theme_args"
  using histogram_keys_vocabulary [of "[(''A'', Theme_args), (''B'', rev Theme_args)]" 5]
  by (simp add: values_of_def)

theorem histogram_keys_counterexample:
  "\<not> (set (keys_of (fst (histogram [(''A'', [''Analytical''])] 5))) = set Theme_args \<and>
      set (keys_of (snd (histogram [(''A'', [''Analytical''])] 5))) = set Theme_args)"
proof -
  have "''Analytical'' \<in> set (keys_of (fst (histogram [(''A'', [''Analytical''])] 5)))"
    by (simp add: histogram_eq keys_hist values_of_def slice_to_def)
  moreover have "''Analytical'' \<notin> set Theme_args"
    by (simp add: Theme_args_def)
  ultimately show ?thesis by blast
qed

text \<open>
  C5. The claim says that the counts of each histogram sum to the sum over the members of
  \<open>min(rate, len(profile))\<close>, for every rate. For the strengths this holds for every
  rate \<open>\<ge> 0\<close> and for the weaknesses for every rate \<open>\<ge> 1\<close>. At rate 0 the slice
  \<open>xs[-0:]\<close> is the whole profile, so a table with one profile of 34 traits has a
  weaknesses sum of 34, not 0.
\<close>

theorem histogram_count_conservation:
  "(0 \<le> rate \<longrightarrow>
      sum_list (values_of (fst (histogram table rate)))
        = (\<Sum>profile\<leftarrow>values_of table. min rate (int (length profile)))) \<and>
   (1 \<le> rate \<longrightarrow>
      sum_list (values_of (snd (histogram table rate)))
        = (\<Sum>profile\<leftarrow>values_of table. min rate (int (length profile))))"
  by (simp add: histogram_eq sum_hist length_concat_slices length_slice_to length_slice_from)

theorem histogram_count_conservation_witness:
  "(0::int) \<le> 5 \<and> (1::int) \<le> 5 \<and>
   sum_list (values_of (fst (histogram [(''A'', Theme_args), (''B'', [])] 5))) = 5 \<and>
   sum_list (values_of (snd (histogram [(''A'', Theme_args), (''B'', [])] 5))) = 5"
  using histogram_count_conservation [of 5 "[(''A'', Theme_args), (''B'', [])]"]
  by (simp add: values_of_def length_Theme_args)

theorem histogram_count_conservation_counterexample:
  "sum_list (values_of (snd (histogram [(''A'', Theme_args)] 0)))
     \<noteq> (\<Sum>profile\<leftarrow>values_of [(''A'', Theme_args)]. min 0 (int (length profile)))"
proof -
  have "values_of [(''A'', Theme_args)] = [Theme_args]"
    by (simp add: values_of_def)
  then show ?thesis
    using sum_hist [of Theme_args] by (simp add: histogram_eq slice_from_zero length_Theme_args)
qed

text \<open>
  C10. With rate 0 the strengths mapping is the zero-filled vocabulary, and the weaknesses
  mapping has the vocabulary and every trait of every profile as its keys, each once, with
  the number of occurrences of the trait in all the full profiles as its count.
\<close>

theorem histogram_rate_zero:
  "fst (histogram table 0) = map (\<lambda>theme. (theme, 0)) Theme_args \<and>
   set (keys_of (snd (histogram table 0))) = set Theme_args \<union> set (concat (values_of table)) \<and>
   distinct (keys_of (snd (histogram table 0))) \<and>
   (\<forall>theme. dict_get (snd (histogram table 0)) theme 0 = int (count_list (concat (values_of table)) theme))"
proof -
  have nil: "concat (map (\<lambda>xs. slice_to xs 0) xss) = []" for xss :: "Theme list list"
    by (induction xss) (simp_all add: slice_to_zero)
  have "Counter (concat (map (\<lambda>xs. slice_to xs 0) (values_of table))) = []"
    unfolding nil Counter_def by simp
  then have "fst (histogram table 0) = map (\<lambda>theme. (theme, 0)) Theme_args"
    unfolding histogram_eq by simp
  moreover have "snd (histogram table 0)
      = dict_merge (map (\<lambda>theme. (theme, 0)) Theme_args) (Counter (concat (values_of table)))"
    by (simp add: histogram_eq slice_from_zero)
  ultimately show ?thesis
    using distinct_hist [of "concat (values_of table)"] keys_hist [of "concat (values_of table)"]
    by (simp add: get_hist keys_of_def)
qed

subsection \<open>Dissimilarity engine\<close>

lemma jaccard_eq:
  "jaccard A B = (if card (A \<union> B) = 0 then Inl ZeroDivisionError
                  else Inr (binary64 (rat_of_nat (card (A \<inter> B)) / rat_of_nat (card (A \<union> B)))))"
  by (simp add: jaccard_def int_truediv_def)

lemma jaccard_raises_iff:
  "finite A \<Longrightarrow> finite B \<Longrightarrow> (\<exists>e. jaccard A B = Inl e) \<longleftrightarrow> A \<union> B = {}"
  by (auto simp: jaccard_eq)

lemma jaccard_error: "jaccard A B = Inl e \<Longrightarrow> e = ZeroDivisionError"
  by (auto simp: jaccard_eq split: if_splits)

lemma jaccard_commute: "jaccard A B = jaccard B A"
  by (simp add: jaccard_def Int_commute Un_commute)

lemma jaccard_bounds:
  assumes "finite A" and "finite B" and "A \<union> B \<noteq> {}"
  shows "\<exists>s. jaccard A B = Inr s \<and> 0 \<le> s \<and> s \<le> 1"
proof -
  let ?n = "card (A \<inter> B)" and ?m = "card (A \<union> B)"
  have m: "0 < ?m" using assms by (simp add: card_gt_0_iff)
  have "?n \<le> ?m" using assms by (intro card_mono) auto
  then have q: "0 \<le> rat_of_nat ?n / rat_of_nat ?m" "rat_of_nat ?n / rat_of_nat ?m \<le> 1"
    using m by (simp_all add: divide_le_eq_1)
  have "0 \<le> binary64 (rat_of_nat ?n / rat_of_nat ?m)"
    by (rule binary64_nonneg [OF q(1)])
  moreover have "binary64 (rat_of_nat ?n / rat_of_nat ?m) \<le> 1"
    using binary64_mono [OF q] by (simp add: binary64_one)
  ultimately show ?thesis using m by (simp add: jaccard_eq)
qed

lemma jaccard_same:
  assumes "finite A" and "A \<noteq> {}"
  shows "jaccard A A = Inr 1"
proof -
  have "0 < card A" using assms by (simp add: card_gt_0_iff)
  then show ?thesis by (simp add: jaccard_eq binary64_one)
qed

lemma distance_Inr:
  assumes "jaccard (set (slice_to Xi rate)) (set (slice_to Xj rate)) = Inr s"
    and "jaccard (set (slice_from Xi (- rate))) (set (slice_from Xj (- rate))) = Inr w"
  shows "distance Xi Xj rate = Inr (binary64 (1 - binary64 (binary64 (s + w) / 2)))"
  using assms by (simp add: distance_def float_div_def float_add_def float_sub_def)

lemma distance_commute: "distance Xi Xj rate = distance Xj Xi rate"
  unfolding distance_def
  by (simp only: jaccard_commute [of "set (slice_to Xi rate)" "set (slice_to Xj rate)"]
      jaccard_commute [of "set (slice_from Xi (- rate))" "set (slice_from Xj (- rate))"])

text \<open>
  An example with a rounded quotient: the weakness sets \<open>{b, c}\<close> and \<open>{b, d}\<close> have
  Jaccard similarity \<open>1 / 3\<close>, and the result is the binary64 number that Python prints
  as \<open>0.33333333333333337\<close>.
\<close>

lemma distance_example:
  "distance [''a'', ''b'', ''c''] [''a'', ''b'', ''d''] 2 = Inr (3002399751580331 / 9007199254740992)"
  by code_simp

lemma distance_value_bounds:
  assumes "0 \<le> s" "s \<le> 1" "0 \<le> w" "w \<le> 1"
  shows "0 \<le> binary64 (1 - binary64 (binary64 (s + w) / 2))"
    and "binary64 (1 - binary64 (binary64 (s + w) / 2)) \<le> 1"
proof -
  let ?t = "binary64 (s + w)"
  let ?h = "binary64 (?t / 2)"
  have t0: "0 \<le> ?t" using assms by (intro binary64_nonneg) simp
  have "?t \<le> binary64 2" using assms by (intro binary64_mono) simp_all
  then have t2: "?t \<le> 2" by (simp add: binary64_two)
  have h0: "0 \<le> ?h" using t0 by (intro binary64_nonneg) simp
  have "?h \<le> binary64 1" using t0 t2 by (intro binary64_mono) simp_all
  then have h1: "?h \<le> 1" by (simp add: binary64_one)
  show "0 \<le> binary64 (1 - ?h)" using h1 by (intro binary64_nonneg) simp
  have "binary64 (1 - ?h) \<le> binary64 1" using h0 h1 by (intro binary64_mono) simp_all
  then show "binary64 (1 - ?h) \<le> 1" by (simp add: binary64_one)
qed

lemma distance_raises_iff_aux:
  "(\<exists>e. distance Xi Xj rate = Inl e) \<longleftrightarrow>
     set (slice_to Xi rate) \<union> set (slice_to Xj rate) = {} \<or>
     set (slice_from Xi (- rate)) \<union> set (slice_from Xj (- rate)) = {}"
  by (auto simp: distance_def jaccard_eq float_div_def split: sum.splits if_splits)

lemma distance_error: "distance Xi Xj rate = Inl e \<Longrightarrow> e = ZeroDivisionError"
  by (auto simp: distance_def float_div_def split: sum.splits if_splits dest: jaccard_error)

lemma slice_nonempty:
  assumes "1 \<le> rate" and "xs \<noteq> []"
  shows "slice_to xs rate \<noteq> []" and "slice_from xs (- rate) \<noteq> []"
proof -
  have "0 < nat rate" and "0 < length xs" using assms by simp_all
  then have "length xs - nat rate < length xs" by simp
  then show "slice_from xs (- rate) \<noteq> []" using assms(1) by (simp add: slice_from_def)
  show "slice_to xs rate \<noteq> []" using assms by (simp add: slice_to_def)
qed

lemma distance_no_raise:
  assumes "1 \<le> rate" and "Xi \<noteq> []" and "Xj \<noteq> []"
  shows "\<exists>d. distance Xi Xj rate = Inr d"
proof (cases "distance Xi Xj rate")
  case (Inl e)
  then have "\<exists>e. distance Xi Xj rate = Inl e" by blast
  then show ?thesis
    unfolding distance_raises_iff_aux using slice_nonempty [OF assms(1,2)] by simp
next
  case (Inr d)
  then show ?thesis by blast
qed

lemma combinations_one: "combinations xs (Suc 0) = map (\<lambda>x. [x]) xs"
  by (induction xs) simp_all

lemma combinations_two: "combinations xs 2 = map (\<lambda>(a, b). [a, b]) (pairs xs)"
  by (induction xs) (simp_all add: numeral_2_eq_2 combinations_one)

lemma distance_loop_pairs_Cons:
  "distance_loop (map (\<lambda>(a, b). [a, b]) (((name_i, Xi), (name_j, Xj)) # ps)) rate =
     (case distance Xi Xj rate of
        Inl e \<Rightarrow> Raise e
      | Inr d \<Rightarrow> Yield (name_i, name_j, d) (distance_loop (map (\<lambda>(a, b). [a, b]) ps) rate))"
  by simp

lemma distance_loop_names:
  "raised (distance_loop (map (\<lambda>(a, b). [a, b]) ps) rate) = None \<Longrightarrow>
   map (\<lambda>(name_i, name_j, d). (name_i, name_j)) (yielded (distance_loop (map (\<lambda>(a, b). [a, b]) ps) rate))
     = map (\<lambda>(a, b). (fst a, fst b)) ps"
proof (induction ps)
  case Nil
  then show ?case by simp
next
  case (Cons p ps)
  obtain name_i Xi name_j Xj where p: "p = ((name_i, Xi), (name_j, Xj))"
    by (cases p) auto
  show ?case
    using Cons unfolding p distance_loop_pairs_Cons
    by (cases "distance Xi Xj rate") simp_all
qed

lemma distance_loop_no_raise:
  "1 \<le> rate \<Longrightarrow> \<forall>(a, b) \<in> set ps. snd a \<noteq> [] \<and> snd b \<noteq> [] \<Longrightarrow>
   raised (distance_loop (map (\<lambda>(a, b). [a, b]) ps) rate) = None"
proof (induction ps)
  case Nil
  then show ?case by simp
next
  case (Cons p ps)
  obtain name_i Xi name_j Xj where p: "p = ((name_i, Xi), (name_j, Xj))"
    by (cases p) auto
  have "Xi \<noteq> []" "Xj \<noteq> []" using Cons.prems(2) p by auto
  then obtain d where "distance Xi Xj rate = Inr d"
    using distance_no_raise [OF Cons.prems(1)] by blast
  then show ?case
    using Cons unfolding p distance_loop_pairs_Cons by simp
qed

lemma set_pairs_subset: "(a, b) \<in> set (pairs xs) \<Longrightarrow> a \<in> set xs \<and> b \<in> set xs"
  by (induction xs) auto

lemma distance_gen_no_raise:
  assumes "1 \<le> rate" and "\<forall>profile \<in> set (values_of table). profile \<noteq> []"
  shows "raised (distance_gen table rate) = None"
  unfolding distance_gen_def items_def combinations_two
proof (rule distance_loop_no_raise [OF assms(1)])
  show "\<forall>(a, b) \<in> set (pairs table). snd a \<noteq> [] \<and> snd b \<noteq> []"
    using assms(2) set_pairs_subset [of _ _ table] by (fastforce simp: values_of_def)
qed

lemma pairs_map: "pairs (map f xs) = map (\<lambda>(a, b). (f a, f b)) (pairs xs)"
  by (induction xs) simp_all

lemma length_pairs: "length (pairs xs) = length xs * (length xs - 1) div 2"
proof (induction xs)
  case Nil
  then show ?case by simp
next
  case (Cons x xs)
  have "length xs + length xs * (length xs - 1) div 2 = (2 * length xs + length xs * (length xs - 1)) div 2"
    by simp
  also have "2 * length xs + length xs * (length xs - 1) = Suc (length xs) * length xs"
    by (cases "length xs") simp_all
  finally show ?case using Cons by simp
qed

lemma distinct_pairs: "distinct xs \<Longrightarrow> distinct (pairs xs)"
proof (induction xs)
  case Nil
  then show ?case by simp
next
  case (Cons x xs)
  have "distinct (map (Pair x) xs)"
    using Cons.prems by (simp add: distinct_map inj_on_def)
  moreover have "set (map (Pair x) xs) \<inter> set (pairs xs) = {}"
    using Cons.prems set_pairs_subset [of x _ xs] by auto
  ultimately show ?case using Cons by simp
qed

lemma pairs_nth: "i < j \<Longrightarrow> j < length xs \<Longrightarrow> (xs ! i, xs ! j) \<in> set (pairs xs)"
proof (induction xs arbitrary: i j)
  case Nil
  then show ?case by simp
next
  case (Cons x xs)
  show ?case
  proof (cases i)
    case 0
    then show ?thesis using Cons.prems by (cases j) auto
  next
    case (Suc i')
    then obtain j' where j: "j = Suc j'" using Cons.prems by (cases j) auto
    then have "(xs ! i', xs ! j') \<in> set (pairs xs)"
      using Cons.prems Suc by (intro Cons.IH) auto
    then show ?thesis by (simp add: Suc j)
  qed
qed

lemma pairs_no_swap:
  "distinct xs \<Longrightarrow> (a, b) \<in> set (pairs xs) \<Longrightarrow> (b, a) \<notin> set (pairs xs)"
proof (induction xs)
  case Nil
  then show ?case by simp
next
  case (Cons x xs)
  then show ?case
    using set_pairs_subset [of x _ xs] set_pairs_subset [of _ x xs] by auto
qed

lemma slice_empty_iff:
  assumes "1 \<le> rate"
  shows "slice_to xs rate = [] \<longleftrightarrow> xs = []" and "slice_from xs (- rate) = [] \<longleftrightarrow> xs = []"
proof -
  have r: "0 < nat rate" using assms by simp
  show "slice_to xs rate = [] \<longleftrightarrow> xs = []"
    using assms r by (simp add: slice_to_def take_eq_Nil)
  have "length xs \<le> length xs - nat rate \<longleftrightarrow> xs = []"
    using r by (cases xs) auto
  then show "slice_from xs (- rate) = [] \<longleftrightarrow> xs = []"
    using assms by (simp add: slice_from_def)
qed

lemma distance_raises_nonneg_rate:
  assumes "0 \<le> rate"
  shows "distance Xi Xj rate = Inl ZeroDivisionError \<longleftrightarrow> rate = 0 \<or> (Xi = [] \<and> Xj = [])"
proof -
  have iff: "distance Xi Xj rate = Inl ZeroDivisionError \<longleftrightarrow>
      set (slice_to Xi rate) \<union> set (slice_to Xj rate) = {} \<or>
      set (slice_from Xi (- rate)) \<union> set (slice_from Xj (- rate)) = {}"
    using distance_raises_iff_aux [of Xi Xj rate] distance_error [of Xi Xj rate] by blast
  show ?thesis
  proof (cases "rate = 0")
    case True
    then show ?thesis unfolding iff by (simp add: slice_to_def)
  next
    case False
    then have "1 \<le> rate" using assms by simp
    then show ?thesis
      unfolding iff using False by (simp add: slice_empty_iff)
  qed
qed

lemma distance_negative_rate_example:
  "distance [''a''] [''b''] (- 1) = Inl ZeroDivisionError"
proof -
  have "slice_to [''a''] (- 1) = []" and "slice_to [''b''] (- 1) = []"
    by (simp_all add: slice_to_def)
  then have "jaccard (set (slice_to [''a''] (- 1))) (set (slice_to [''b''] (- 1))) = Inl ZeroDivisionError"
    by (simp add: jaccard_eq)
  then show ?thesis by (simp add: distance_def)
qed

text \<open>
  C3. The claim says that the empty union, which is what raises, happens when \<open>K = 0\<close> or a
  profile is empty. One empty profile does not make a union empty: the distance of \<open>[]\<close>
  and \<open>["a"]\<close> at rate 5 is 1 and nothing is raised. What holds: computing the distance
  raises \<open>ZeroDivisionError\<close> if and only if the union of the two strength sets or the
  union of the two weakness sets is empty, and it raises no other error; for a rate
  \<open>K \<ge> 0\<close> that is exactly when \<open>K = 0\<close> or both compared profiles are empty. With a
  rate \<open>K \<ge> 1\<close> and both profiles non-empty it returns a number, and when every profile
  of the table is non-empty \<open>distance_gen\<close> raises nothing.
\<close>

theorem distance_raises_iff:
  "(distance Xi Xj rate = Inl ZeroDivisionError \<longleftrightarrow>
      set (slice_to Xi rate) \<union> set (slice_to Xj rate) = {} \<or>
      set (slice_from Xi (- rate)) \<union> set (slice_from Xj (- rate)) = {}) \<and>
   (\<forall>e. distance Xi Xj rate = Inl e \<longrightarrow> e = ZeroDivisionError) \<and>
   (0 \<le> rate \<longrightarrow>
      (distance Xi Xj rate = Inl ZeroDivisionError \<longleftrightarrow> rate = 0 \<or> (Xi = [] \<and> Xj = []))) \<and>
   (1 \<le> rate \<and> Xi \<noteq> [] \<and> Xj \<noteq> [] \<longrightarrow> (\<exists>d. distance Xi Xj rate = Inr d)) \<and>
   (1 \<le> rate \<and> (\<forall>profile \<in> set (values_of table). profile \<noteq> []) \<longrightarrow>
      raised (distance_gen table rate) = None)"
proof (intro conjI impI allI)
  show "distance Xi Xj rate = Inl ZeroDivisionError \<longleftrightarrow>
      set (slice_to Xi rate) \<union> set (slice_to Xj rate) = {} \<or>
      set (slice_from Xi (- rate)) \<union> set (slice_from Xj (- rate)) = {}"
    using distance_raises_iff_aux [of Xi Xj rate] distance_error [of Xi Xj rate] by blast
  show "e = ZeroDivisionError" if "distance Xi Xj rate = Inl e" for e
    using that by (rule distance_error)
  show "distance Xi Xj rate = Inl ZeroDivisionError \<longleftrightarrow> rate = 0 \<or> (Xi = [] \<and> Xj = [])"
    if "0 \<le> rate"
    using that by (rule distance_raises_nonneg_rate)
  show "\<exists>d. distance Xi Xj rate = Inr d" if "1 \<le> rate \<and> Xi \<noteq> [] \<and> Xj \<noteq> []"
    using that distance_no_raise [of rate Xi Xj] by blast
  show "raised (distance_gen table rate) = None"
    if "1 \<le> rate \<and> (\<forall>profile \<in> set (values_of table). profile \<noteq> [])"
    using that distance_gen_no_raise [of rate table] by blast
qed

theorem distance_raises_iff_witness:
  "(0::int) \<le> 5 \<and> (1::int) \<le> 5 \<and> [''a'', ''b''] \<noteq> [] \<and> [''b'', ''c''] \<noteq> [] \<and>
   (\<exists>d. distance [''a'', ''b''] [''b'', ''c''] 5 = Inr d) \<and>
   raised (distance_gen [(''A'', [''a'', ''b'']), (''B'', [''b'', ''c''])] 5) = None \<and>
   distance [''a'', ''b''] [''b'', ''c''] 0 = Inl ZeroDivisionError \<and>
   distance [] [] 5 = Inl ZeroDivisionError \<and>
   distance [] [''a''] 5 \<noteq> Inl ZeroDivisionError"
proof -
  note A = distance_raises_iff [of "[''a'', ''b'']" "[''b'', ''c'']" 5 "[(''A'', [''a'', ''b'']), (''B'', [''b'', ''c''])]"]
  note B = distance_raises_iff [of "[''a'', ''b'']" "[''b'', ''c'']" 0 "[]"]
  note C = distance_raises_iff [of "[]" "[]" 5 "[]"]
  note D = distance_raises_iff [of "[]" "[''a'']" 5 "[]"]
  note third = conjunct2 [THEN conjunct2, THEN conjunct1]
  have "\<exists>d. distance [''a'', ''b''] [''b'', ''c''] 5 = Inr d"
    using A by simp
  moreover have "raised (distance_gen [(''A'', [''a'', ''b'']), (''B'', [''b'', ''c''])] 5) = None"
    using A by (simp add: values_of_def)
  moreover have "distance [''a'', ''b''] [''b'', ''c''] 0 = Inl ZeroDivisionError"
    using B [THEN third] by simp
  moreover have "distance [] [] 5 = Inl ZeroDivisionError"
    using C [THEN third] by simp
  moreover have "distance [] [''a''] 5 \<noteq> Inl ZeroDivisionError"
    using D [THEN third] by simp
  ultimately show ?thesis by simp
qed

theorem distance_raises_iff_counterexample:
  "distance [] [''a''] 5 = Inr 1 \<and>
   set (slice_to [] 5) \<union> set (slice_to [''a''] 5) \<noteq> {} \<and>
   set (slice_from [] (- 5)) \<union> set (slice_from [''a''] (- 5)) \<noteq> {}"
proof -
  have s: "jaccard (set (slice_to [] 5)) (set (slice_to [''a''] 5)) = Inr 0"
    by (simp add: jaccard_eq slice_to_def binary64_zero)
  have w: "jaccard (set (slice_from [] (- 5))) (set (slice_from [''a''] (- 5))) = Inr 0"
    by (simp add: jaccard_eq slice_from_def binary64_zero)
  have "distance [] [''a''] 5 = Inr 1"
    unfolding distance_Inr [OF s w] by (simp add: binary64_zero binary64_one)
  moreover have "set (slice_to [] 5) \<union> set (slice_to [''a''] 5) \<noteq> {}"
    by (simp add: slice_to_def)
  moreover have "set (slice_from [] (- 5)) \<union> set (slice_from [''a''] (- 5)) \<noteq> {}"
    by (simp add: slice_from_def)
  ultimately show ?thesis by blast
qed

text \<open>
  C6. For two profiles whose strength sets and weakness sets under the rate \<open>K\<close> are
  non-empty, the distance is a number between 0 and 1, and the distance computed with the
  two profiles swapped is the same number. The bounds hold for the rounded binary64
  results, not only for the exact quotients.
\<close>

theorem distance_bounds_symmetric:
  assumes "set (slice_to Xi K) \<noteq> {}" and "set (slice_to Xj K) \<noteq> {}"
    and "set (slice_from Xi (- K)) \<noteq> {}" and "set (slice_from Xj (- K)) \<noteq> {}"
  shows "\<exists>d. distance Xi Xj K = Inr d \<and> 0 \<le> d \<and> d \<le> 1 \<and> distance Xj Xi K = Inr d"
proof -
  obtain s where s: "jaccard (set (slice_to Xi K)) (set (slice_to Xj K)) = Inr s" "0 \<le> s" "s \<le> 1"
    using jaccard_bounds [of "set (slice_to Xi K)" "set (slice_to Xj K)"] assms(1) by auto
  obtain w where w: "jaccard (set (slice_from Xi (- K))) (set (slice_from Xj (- K))) = Inr w" "0 \<le> w" "w \<le> 1"
    using jaccard_bounds [of "set (slice_from Xi (- K))" "set (slice_from Xj (- K))"] assms(3) by auto
  have "distance Xi Xj K = Inr (binary64 (1 - binary64 (binary64 (s + w) / 2)))"
    by (rule distance_Inr [OF s(1) w(1)])
  then show ?thesis
    using distance_value_bounds [OF s(2,3) w(2,3)] distance_commute [of Xj Xi K] by simp
qed

theorem distance_bounds_symmetric_witness:
  "set (slice_to [''a'', ''b'', ''c''] 2) \<noteq> {} \<and> set (slice_to [''a'', ''d'', ''c''] 2) \<noteq> {} \<and>
   set (slice_from [''a'', ''b'', ''c''] (- 2)) \<noteq> {} \<and> set (slice_from [''a'', ''d'', ''c''] (- 2)) \<noteq> {} \<and>
   (\<exists>d. distance [''a'', ''b'', ''c''] [''a'', ''d'', ''c''] 2 = Inr d \<and> 0 \<le> d \<and> d \<le> 1 \<and>
        distance [''a'', ''d'', ''c''] [''a'', ''b'', ''c''] 2 = Inr d)"
  using distance_bounds_symmetric [of "[''a'', ''b'', ''c'']" 2 "[''a'', ''d'', ''c'']"]
  by (simp add: slice_to_def slice_from_def)

text \<open>
  C7. When the first-K sets of two profiles are equal and their last-K sets are equal,
  and these sets are not empty, the distance is exactly 0.
\<close>

theorem distance_identity:
  assumes "set (slice_to Xi K) = set (slice_to Xj K)"
    and "set (slice_from Xi (- K)) = set (slice_from Xj (- K))"
    and "set (slice_to Xi K) \<noteq> {}" and "set (slice_from Xi (- K)) \<noteq> {}"
  shows "distance Xi Xj K = Inr 0"
proof -
  have s: "jaccard (set (slice_to Xi K)) (set (slice_to Xj K)) = Inr 1"
    using assms(3) jaccard_same [of "set (slice_to Xi K)"] by (simp add: assms(1) [symmetric])
  have w: "jaccard (set (slice_from Xi (- K))) (set (slice_from Xj (- K))) = Inr 1"
    using assms(4) jaccard_same [of "set (slice_from Xi (- K))"] by (simp add: assms(2) [symmetric])
  show ?thesis
    unfolding distance_Inr [OF s w] by (simp add: binary64_two binary64_one binary64_zero)
qed

theorem distance_identity_witness:
  "set (slice_to [''a'', ''b'', ''c'', ''d''] 2) = set (slice_to [''b'', ''a'', ''d'', ''c''] 2) \<and>
   set (slice_from [''a'', ''b'', ''c'', ''d''] (- 2)) = set (slice_from [''b'', ''a'', ''d'', ''c''] (- 2)) \<and>
   set (slice_to [''a'', ''b'', ''c'', ''d''] 2) \<noteq> {} \<and>
   set (slice_from [''a'', ''b'', ''c'', ''d''] (- 2)) \<noteq> {} \<and>
   distance [''a'', ''b'', ''c'', ''d''] [''b'', ''a'', ''d'', ''c''] 2 = Inr 0"
  using distance_identity [of "[''a'', ''b'', ''c'', ''d'']" 2 "[''b'', ''a'', ''d'', ''c'']"]
  by (simp add: slice_to_def slice_from_def insert_commute)

text \<open>
  C8. The claim says that \<open>distance_gen\<close> yields one triple per unordered pair of distinct
  members for every table. The generator stops at the first pair whose distance raises, so
  this holds when no distance computation raises: then it yields
  \<open>n * (n - 1) / 2\<close> triples, their name pairs are the pairs of the table's keys in
  iteration order, no pair occurs twice, and for members \<open>i\<close> before \<open>j\<close> the pair
  \<open>(i, j)\<close> is yielded and \<open>(j, i)\<close> is not. For a table of two members with empty
  profiles the generator raises \<open>ZeroDivisionError\<close> and yields no triple.
\<close>

theorem distance_gen_pairs:
  assumes "wf_table table" and "raised (distance_gen table rate) = None"
  shows "length (yielded (distance_gen table rate)) = length table * (length table - 1) div 2 \<and>
         map (\<lambda>(name_i, name_j, d). (name_i, name_j)) (yielded (distance_gen table rate))
           = pairs (keys_of table) \<and>
         distinct (map (\<lambda>(name_i, name_j, d). (name_i, name_j)) (yielded (distance_gen table rate))) \<and>
         (\<forall>i j. i < j \<and> j < length table \<longrightarrow>
            (keys_of table ! i, keys_of table ! j)
              \<in> set (map (\<lambda>(name_i, name_j, d). (name_i, name_j)) (yielded (distance_gen table rate))) \<and>
            (keys_of table ! j, keys_of table ! i)
              \<notin> set (map (\<lambda>(name_i, name_j, d). (name_i, name_j)) (yielded (distance_gen table rate))))"
proof -
  let ?names = "map (\<lambda>(name_i, name_j, d). (name_i, name_j)) (yielded (distance_gen table rate))"
  have d: "distinct (keys_of table)" using assms(1) by (simp add: wf_table_def keys_of_def)
  have names: "?names = pairs (keys_of table)"
    using distance_loop_names [of "pairs table" rate] assms(2)
    by (simp add: distance_gen_def items_def combinations_two keys_of_def pairs_map)
  have "length ?names = length table * (length table - 1) div 2"
    unfolding names by (simp add: length_pairs keys_of_def)
  then have len: "length (yielded (distance_gen table rate)) = length table * (length table - 1) div 2"
    by simp
  have "(keys_of table ! i, keys_of table ! j) \<in> set ?names \<and>
        (keys_of table ! j, keys_of table ! i) \<notin> set ?names"
    if "i < j" "j < length table" for i j
  proof -
    have "(keys_of table ! i, keys_of table ! j) \<in> set (pairs (keys_of table))"
      using that by (intro pairs_nth) (simp_all add: keys_of_def)
    then show ?thesis
      unfolding names using pairs_no_swap [OF d] by blast
  qed
  with len names distinct_pairs [OF d] show ?thesis by simp
qed

theorem distance_gen_pairs_witness:
  "wf_table [(''A'', [''a'']), (''B'', [''b'']), (''C'', [''a''])] \<and>
   raised (distance_gen [(''A'', [''a'']), (''B'', [''b'']), (''C'', [''a''])] 5) = None \<and>
   length (yielded (distance_gen [(''A'', [''a'']), (''B'', [''b'']), (''C'', [''a''])] 5)) = 3 \<and>
   map (\<lambda>(name_i, name_j, d). (name_i, name_j))
       (yielded (distance_gen [(''A'', [''a'']), (''B'', [''b'']), (''C'', [''a''])] 5))
     = [(''A'', ''B''), (''A'', ''C''), (''B'', ''C'')]"
proof -
  have r: "raised (distance_gen [(''A'', [''a'']), (''B'', [''b'']), (''C'', [''a''])] 5) = None"
    by (rule distance_gen_no_raise) (simp_all add: values_of_def)
  have w: "wf_table [(''A'', [''a'']), (''B'', [''b'']), (''C'', [''a''])]"
    by (simp add: wf_table_def)
  show ?thesis
    using distance_gen_pairs [OF w r] r w by (simp add: keys_of_def)
qed

theorem distance_gen_pairs_counterexample:
  "distance_gen [(''A'', []), (''B'', [])] 5 = Raise ZeroDivisionError \<and>
   length (yielded (distance_gen [(''A'', []), (''B'', [])] 5))
     \<noteq> length [(''A'', []), (''B'', [])] * (length [(''A'', []), (''B'', [])] - 1) div 2"
proof -
  have "distance [] [] 5 = Inl ZeroDivisionError"
    by (simp add: distance_def jaccard_eq slice_to_def)
  then have "distance_gen [(''A'', []), (''B'', [])] 5 = Raise ZeroDivisionError"
    by (simp add: distance_gen_def items_def combinations_two)
  then show ?thesis by simp
qed

subsection \<open>Uniqueness engine\<close>

lemma set_slice_to_top_K: "0 \<le> K \<Longrightarrow> set (slice_to X K) = top_K K X"
  by (simp add: slice_to_def top_K_def min_def)

lemma foldl_Un: "foldl (\<lambda>x y. x \<union> y) A Bs = A \<union> \<Union> (set Bs)"
  by (induction Bs arbitrary: A) auto

lemma reduce_Un: "Bs \<noteq> [] \<Longrightarrow> reduce (\<lambda>x y. x \<union> y) Bs = Inr (\<Union> (set Bs))"
  by (cases Bs) (simp_all add: reduce_def foldl_Un)

lemma others_nonempty:
  assumes "wf_table table" "2 \<le> length table"
  shows "filter (\<lambda>(name_j, Xj). name_j \<noteq> name_i) table \<noteq> []"
proof -
  obtain p q rest where t: "table = p # q # rest"
    using assms(2) by (cases table; cases "tl table") auto
  with assms(1) have "fst p \<noteq> fst q" by (simp add: wf_table_def)
  then have "fst p \<noteq> name_i \<or> fst q \<noteq> name_i" by auto
  then show ?thesis unfolding t by (auto simp: filter_empty_conv split: prod.splits)
qed

lemma skipped_union_eq:
  assumes "wf_table table" "2 \<le> length table" "0 \<le> K"
  shows "skipped_union name_i table K =
     Inr (\<Union> (set (map (\<lambda>(name_j, Xj). top_K K Xj) (filter (\<lambda>(name_j, Xj). name_j \<noteq> name_i) table))))"
proof -
  have eq: "map (\<lambda>(name_j, Xj). set (slice_to Xj K)) ys = map (\<lambda>(name_j, Xj). top_K K Xj) ys" for ys :: ThemesTable
    using assms(3) by (simp add: set_slice_to_top_K split_def)
  show ?thesis
    unfolding skipped_union_def items_def Let_def eq
    by (rule reduce_Un) (simp add: others_nonempty[OF assms(1,2)])
qed

lemma specific_loop_eq:
  assumes "wf_table table" "2 \<le> length table" "0 \<le> K"
  shows "raised (specific_loop rest table K) = None \<and>
         yielded (specific_loop rest table K) = map (\<lambda>(name_i, Xi). (name_i, specific_spec table K name_i Xi)) rest"
  by (induction rest) (auto simp: skipped_union_eq[OF assms] specific_spec_def set_slice_to_top_K[OF assms(3)])

text \<open>
  C1. For a table with exactly one member the claim asks for one yielded pair, the member's
  top-K set, and no error. The code does otherwise: no other member is left, \<open>reduce\<close>
  gets an empty iterable and no initial value, and the generator raises \<open>TypeError\<close>
  before it yields anything, whatever the profile and the rate.
\<close>

theorem specific_gen_single_raises: "specific_gen [(name_i, Xi)] rate = Raise TypeError"
  by (simp add: specific_gen_def items_def skipped_union_def reduce_def)

text \<open>
  C4. For a table with at least two members and a rate \<open>K \<ge> 1\<close>, \<open>specific_gen\<close> raises
  nothing and yields, for each member in table order, the set \<open>S\<^sub>i\<close> minus the union of
  \<open>S\<^sub>j\<close> over all other members, where \<open>S\<^sub>i\<close> is the set of the first
  \<open>min(K, len(profile\<^sub>i))\<close> traits; each yielded set is a subset of that member's
  top-K set.
\<close>

theorem specific_gen_spec:
  assumes "wf_table table" and "2 \<le> length table" and "1 \<le> K"
  shows "raised (specific_gen table K) = None \<and>
         yielded (specific_gen table K) = map (\<lambda>(name_i, Xi). (name_i, specific_spec table K name_i Xi)) table \<and>
         (\<forall>i < length table. snd (yielded (specific_gen table K) ! i) \<subseteq> top_K K (snd (table ! i)))"
proof -
  have K: "0 \<le> K" using assms(3) by simp
  note L = specific_loop_eq[OF assms(1,2) K, of table]
  have "snd (yielded (specific_gen table K) ! i) \<subseteq> top_K K (snd (table ! i))" if "i < length table" for i
    using that L by (auto simp: specific_gen_def items_def specific_spec_def split_def)
  with L show ?thesis by (simp add: specific_gen_def items_def)
qed

theorem specific_gen_spec_witness:
  "wf_table [(''A'', [''x'', ''y'']), (''B'', [''y'', ''z''])] \<and>
   2 \<le> length [(''A'', [''x'', ''y'']), (''B'', [''y'', ''z''])] \<and> (1::int) \<le> 5 \<and>
   raised (specific_gen [(''A'', [''x'', ''y'']), (''B'', [''y'', ''z''])] 5) = None \<and>
   yielded (specific_gen [(''A'', [''x'', ''y'']), (''B'', [''y'', ''z''])] 5)
     = [(''A'', {''x''}), (''B'', {''z''})]"
  using specific_gen_spec [of "[(''A'', [''x'', ''y'']), (''B'', [''y'', ''z''])]" 5]
  by (simp add: wf_table_def specific_spec_def top_K_def insert_Diff_if)

text \<open>
  C9. For a table with at least two members and a rate \<open>K \<ge> 1\<close>, the sets yielded for
  two distinct members are disjoint.
\<close>

theorem specific_gen_disjoint:
  assumes "wf_table table" and "2 \<le> length table" and "1 \<le> K"
    and "i < length table" and "j < length table" and "i \<noteq> j"
  shows "snd (yielded (specific_gen table K) ! i) \<inter> snd (yielded (specific_gen table K) ! j) = {}"
proof -
  have K: "0 \<le> K" using assms(3) by simp
  note L = specific_loop_eq[OF assms(1,2) K, of table]
  have ne: "fst (table ! i) \<noteq> fst (table ! j)"
    using assms(1,4,5,6) nth_eq_iff_index_eq[of "map fst table" i j] by (simp add: wf_table_def)
  have "snd (yielded (specific_gen table K) ! i) = specific_spec table K (fst (table ! i)) (snd (table ! i))"
    and "snd (yielded (specific_gen table K) ! j) = specific_spec table K (fst (table ! j)) (snd (table ! j))"
    using L assms(4,5) by (simp_all add: specific_gen_def items_def split_def)
  moreover have "specific_spec table K (fst (table ! i)) (snd (table ! i)) \<inter> top_K K (snd (table ! j)) = {}"
  proof -
    have "table ! j \<in> set (filter (\<lambda>(name_j, Xj). name_j \<noteq> fst (table ! i)) table)"
      using ne assms(5) by (auto simp: split_def)
    then show ?thesis by (force simp: specific_spec_def split_def)
  qed
  moreover have "specific_spec table K (fst (table ! j)) (snd (table ! j)) \<subseteq> top_K K (snd (table ! j))"
    by (auto simp: specific_spec_def)
  ultimately show ?thesis by blast
qed

theorem specific_gen_disjoint_witness:
  "wf_table [(''A'', [''x'', ''y'']), (''B'', [''y'', ''z''])] \<and>
   2 \<le> length [(''A'', [''x'', ''y'']), (''B'', [''y'', ''z''])] \<and> (1::int) \<le> 5 \<and>
   snd (yielded (specific_gen [(''A'', [''x'', ''y'']), (''B'', [''y'', ''z''])] 5) ! 0) \<inter>
   snd (yielded (specific_gen [(''A'', [''x'', ''y'']), (''B'', [''y'', ''z''])] 5) ! 1) = {}"
  using specific_gen_disjoint [of "[(''A'', [''x'', ''y'']), (''B'', [''y'', ''z''])]" 5 0 1]
  by (simp add: wf_table_def)


end
